theory Spec2Isabelle
  imports Complex_Main "HOL-Library.Sublist"
begin

section \<open>Helm command builder\<close>

text \<open>
  The module \<open>checker_common.py\<close> builds shell command lines for \<open>helm\<close> and
  \<open>kubectl\<close>, runs them through \<open>subprocess.run\<close>, and expands a YAML template with
  \<open>string.Template.safe_substitute\<close>. Python strings are modelled as HOL strings, an
  optional argument \<open>str | None\<close> as \<open>string option\<close>, and a \<open>dict[str, str]\<close> as the
  list of its items in insertion order.
\<close>

datatype HelmCommand = INSTALL | UNINSTALL

text \<open>
  An f-string field \<open>{x}\<close> formats its value with \<open>format(x, '')\<close>: a \<open>str\<close> is
  inserted as it is, and \<open>None\<close> is inserted as the four characters \<open>None\<close>.
\<close>

definition format_field :: "string option \<Rightarrow> string" where
  "format_field x = (case x of None \<Rightarrow> ''None'' | Some s \<Rightarrow> s)"

text \<open>The loop \<open>for k, v in values.items(): command = f"{command} --set {k}={v}"\<close>.\<close>

fun set_values :: "string \<Rightarrow> (string \<times> string) list \<Rightarrow> string" where
  "set_values command [] = command"
| "set_values command ((k, v) # items) =
     set_values (command @ '' --set '' @ k @ ''='' @ v) items"

definition generate_helm_command ::
  "string \<Rightarrow> string \<Rightarrow> string option \<Rightarrow> (string \<times> string) list option \<Rightarrow>
   string option \<Rightarrow> string option \<Rightarrow> HelmCommand \<Rightarrow> string" where
  "generate_helm_command helm_path release_name chart values chart_version
     helm_install_flags helm_command_type =
    (let command = helm_path in
     if helm_command_type = UNINSTALL then
       command @ '' uninstall '' @ release_name
     else
       let command = command @ '' install '' @ release_name @ '' '' @ format_field chart;
           command = (case chart_version of
                        None \<Rightarrow> command
                      | Some v \<Rightarrow> command @ '' --version '' @ v);
           command = (case values of
                        None \<Rightarrow> command
                      | Some d \<Rightarrow> set_values command d);
           command = (case helm_install_flags of
                        None \<Rightarrow> command
                      | Some fl \<Rightarrow> command @ '' '' @ fl)
       in command)"

section \<open>Command runner\<close>

text \<open>
  Everything outside the module is a field of the record \<open>world\<close>: the process
  environment, the text files by path (the text that \<open>open(path).read()\<close> yields), what
  the shell answers to a command line at its n-th invocation (exit status, captured
  standard output, captured standard error), the successive readings of \<open>time.time()\<close>,
  the successive results of \<open>str(uuid.uuid4())\<close>, and the successive names that
  \<open>tempfile.NamedTemporaryFile\<close> chooses. The commands run so far and the lines printed
  so far are recorded, so that theorems can speak about them. Opening a path that has
  no text raises \<open>FileNotFoundError\<close>; other failures of the operating system (no
  shell to start, a full disk, a closed standard output) are not part of the model.
\<close>

text \<open>
  What \<open>text=True\<close> makes of the bytes a pipe delivered: the decoded text, or no text
  at all when the bytes are not valid in the encoding of the locale.
\<close>

datatype captured = Text string | Undecodable

record completed_process =
  args :: string
  returncode :: int
  stdout :: string
  stderr :: string

datatype error =
    CalledProcessError int string string string
  | FileNotFoundError string
  | ValueError string
  | UnicodeDecodeError

text \<open>
  The two lines \<open>run_command\<close> prints: \<open>Running c\<close> is \<open>"running: %s" % c\<close>, and
  \<open>Took d out err\<close> is \<open>"took: %s seconds\nout: %s, err: %s" % (d, out, err)\<close>, the
  elapsed time kept as a number (floats are read as the reals they denote).
\<close>

datatype log_line = Running string | Took real string string

record world =
  environ :: "string \<Rightarrow> string option"
  files :: "string \<Rightarrow> string option"
  shell :: "nat \<Rightarrow> string \<Rightarrow> int \<times> captured \<times> captured"
  executed :: "string list"
  printed :: "log_line list"
  clock :: "nat \<Rightarrow> real"
  clock_reads :: nat
  uuids :: "nat \<Rightarrow> string"
  uuid_draws :: nat
  temp_names :: "nat \<Rightarrow> string"
  temp_made :: nat

definition print :: "log_line \<Rightarrow> world \<Rightarrow> world" where
  "print l w = w\<lparr>printed := printed w @ [l]\<rparr>"

definition time_time :: "world \<Rightarrow> real \<times> world" where
  "time_time w = (clock w (clock_reads w), w\<lparr>clock_reads := Suc (clock_reads w)\<rparr>)"

text \<open>
  \<open>subprocess.run(command, shell=True, text=True, check=check, stdout=PIPE, stderr=PIPE)\<close>.
  A command line that holds a NUL character cannot be passed to the shell: the call
  raises \<open>ValueError("embedded null byte")\<close> and nothing is run. Otherwise the command
  runs to completion and its output is decoded, standard output first; bytes that do
  not decode raise \<open>UnicodeDecodeError\<close>, whatever \<open>check\<close> is. Only then, with
  \<open>check\<close> set, a non-zero exit status raises
  \<open>CalledProcessError(returncode, cmd, output, stderr)\<close>; otherwise the
  \<open>CompletedProcess\<close> is returned whatever the status.
\<close>

definition subprocess_run ::
  "string \<Rightarrow> bool \<Rightarrow> world \<Rightarrow> (error + completed_process) \<times> world" where
  "subprocess_run command check w =
    (if CHR 0x00 \<in> set command then (Inl (ValueError ''embedded null byte''), w)
     else
       let (rc, out, err) = shell w (length (executed w)) command;
           w' = w\<lparr>executed := executed w @ [command]\<rparr>
       in case out of
            Undecodable \<Rightarrow> (Inl UnicodeDecodeError, w')
          | Text out_text \<Rightarrow>
              (case err of
                 Undecodable \<Rightarrow> (Inl UnicodeDecodeError, w')
               | Text err_text \<Rightarrow>
                   if check \<and> rc \<noteq> 0 then
                     (Inl (CalledProcessError rc command out_text err_text), w')
                   else
                     (Inr \<lparr>args = command, returncode = rc, stdout = out_text,
                           stderr = err_text\<rparr>, w')))"

definition run_command ::
  "string \<Rightarrow> bool \<Rightarrow> world \<Rightarrow> (error + completed_process) \<times> world" where
  "run_command command check w =
    (let w1 = print (Running command) w;
         (start_time, w2) = time_time w1;
         (r, w3) = subprocess_run command check w2
     in case r of
          Inl e \<Rightarrow> (Inl e, w3)
        | Inr diag \<Rightarrow>
            let (end_time, w4) = time_time w3;
                w5 = print (Took (end_time - start_time) (stdout diag) (stderr diag)) w4
            in (Inr diag, w5))"

text \<open>The default of the parameter \<open>check\<close> in \<open>def run_command(command, check=False)\<close>.\<close>

definition check_default :: bool where
  "check_default = False"

section \<open>Helm release installer\<close>

text \<open>
  A cleanup function is a closure without arguments that runs one command; invoked in a
  world, it gives the outcome of that command and the world after it.
\<close>

type_synonym cleanup = "world \<Rightarrow> (error + completed_process) \<times> world"

definition install_helm_release ::
  "string \<Rightarrow> string \<Rightarrow> string \<Rightarrow> (string \<times> string) list option \<Rightarrow>
   string option \<Rightarrow> string option \<Rightarrow> world \<Rightarrow> (error + cleanup) \<times> world" where
  "install_helm_release helm_path release_name chart values chart_version
     helm_install_flags w =
    (let helm_install_command =
           generate_helm_command helm_path release_name (Some chart) values chart_version
             helm_install_flags INSTALL
     in case run_command helm_install_command check_default w of
          (Inl e, w1) \<Rightarrow> (Inl e, w1)
        | (Inr _, w1) \<Rightarrow>
            let helm_uninstall_command =
                  generate_helm_command helm_path release_name None None None
                    helm_install_flags UNINSTALL;
                uninstall_helm_release = (\<lambda>w'. run_command helm_uninstall_command check_default w')
            in (Inr uninstall_helm_release, w1))"


section \<open>Kubernetes manifests\<close>

text \<open>\<open>K_APPLY_FORMAT % (a, b)\<close> and \<open>K_DELETE_FORMAT % (a, b)\<close> for two strings.\<close>

definition K_APPLY_FORMAT :: "string \<Rightarrow> string \<Rightarrow> string" where
  "K_APPLY_FORMAT a b = a @ '' apply -f '' @ b"

definition K_DELETE_FORMAT :: "string \<Rightarrow> string \<Rightarrow> string" where
  "K_DELETE_FORMAT a b = a @ '' delete -f '' @ b"

definition apply_yaml_file ::
  "string \<Rightarrow> string \<Rightarrow> world \<Rightarrow> (error + cleanup) \<times> world" where
  "apply_yaml_file yaml_path kubectl_path w =
    (case run_command (K_APPLY_FORMAT kubectl_path yaml_path) check_default w of
       (Inl e, w1) \<Rightarrow> (Inl e, w1)
     | (Inr _, w1) \<Rightarrow>
         let delete_yaml_file =
               (\<lambda>w'. run_command (K_DELETE_FORMAT kubectl_path yaml_path) check_default w')
         in (Inr delete_yaml_file, w1))"

section \<open>Template expansion\<close>

text \<open>
  The values of the substitution mapping are \<open>None\<close>, strings and integers;
  \<open>safe_substitute\<close> inserts \<open>str(value)\<close>. A character of a HOL string stands for a
  code point below 256. CPython's configurable limit on the length of a decimal
  conversion (\<open>sys.set_int_max_str_digits\<close>) is a setting of the interpreter and is left
  out: conversions are modelled without a limit.
\<close>

datatype pyval = PyNone | PyStr string | PyInt int

definition digit_char :: "nat \<Rightarrow> char" where
  "digit_char d = ''0123456789'' ! d"

fun str_nat :: "nat \<Rightarrow> string" where
  "str_nat n = (if n < 10 then [digit_char n] else str_nat (n div 10) @ [digit_char (n mod 10)])"

declare str_nat.simps [simp del]

definition str_int :: "int \<Rightarrow> string" where
  "str_int i = (if i < 0 then CHR ''-'' # str_nat (nat (- i)) else str_nat (nat i))"

definition py_str :: "pyval \<Rightarrow> string" where
  "py_str v = (case v of PyNone \<Rightarrow> ''None'' | PyStr s \<Rightarrow> s | PyInt i \<Rightarrow> str_int i)"

text \<open>\<open>int(x)\<close> for a float \<open>x\<close> truncates towards zero.\<close>

definition int_of_float :: "real \<Rightarrow> int" where
  "int_of_float x = (if 0 \<le> x then \<lfloor>x\<rfloor> else \<lceil>x\<rceil>)"

text \<open>
  \<open>int(s)\<close> for a string \<open>s\<close>, base ten: white space around the literal is dropped
  (below code point 256: tab, line feed, vertical tab, form feed, carriage return,
  space, and the two non-ASCII spaces U+0085 and U+00A0), then an optional sign, then
  decimal digits, where one underscore may stand between two digits. Anything else
  raises \<open>ValueError\<close>, here \<open>None\<close>.
\<close>

definition is_space :: "char \<Rightarrow> bool" where
  "is_space c = (of_char c \<in> {9, 10, 11, 12, 13, 32, 133, 160 :: nat})"

definition is_digit :: "char \<Rightarrow> bool" where
  "is_digit c = (c \<in> set ''0123456789'')"

definition digit_val :: "char \<Rightarrow> nat" where
  "digit_val c = of_char c - 48"

definition strip :: "string \<Rightarrow> string" where
  "strip s = rev (dropWhile is_space (rev (dropWhile is_space s)))"

fun more_digits :: "nat \<Rightarrow> string \<Rightarrow> nat option" where
  "more_digits acc [] = Some acc"
| "more_digits acc (c # s) =
     (if is_digit c then more_digits (10 * acc + digit_val c) s
      else if c = CHR ''_'' then
        (case s of
           [] \<Rightarrow> None
         | d # s' \<Rightarrow> if is_digit d then more_digits (10 * acc + digit_val d) s' else None)
      else None)"

definition digits :: "string \<Rightarrow> nat option" where
  "digits s = (case s of
                 [] \<Rightarrow> None
               | c # r \<Rightarrow> if is_digit c then more_digits (digit_val c) r else None)"

definition int_of_str :: "string \<Rightarrow> int option" where
  "int_of_str s =
    (case strip s of
       [] \<Rightarrow> None
     | c # r \<Rightarrow>
         if c = CHR ''-'' then map_option (\<lambda>n. - int n) (digits r)
         else if c = CHR ''+'' then map_option int (digits r)
         else map_option int (digits (c # r)))"

text \<open>
  \<open>string.Template\<close>: the pattern is \<open>\$(?:(?P<escaped>\$) | (?P<named>id) |
  {(?P<braced>id)} | (?P<invalid>))\<close> with \<open>id = (?a:[_a-z][_a-z0-9]*)\<close> and the flag
  \<open>IGNORECASE\<close>, so an identifier is an ASCII letter or underscore followed by ASCII
  letters, digits and underscores, as long as it goes.
\<close>

definition is_id_start :: "char \<Rightarrow> bool" where
  "is_id_start c = (c \<in> set ''_abcdefghijklmnopqrstuvwxyzABCDEFGHIJKLMNOPQRSTUVWXYZ'')"

definition is_id_char :: "char \<Rightarrow> bool" where
  "is_id_char c = (is_id_start c \<or> c \<in> set ''0123456789'')"

text \<open>Whether the text after a \<open>$\<close> is \<open>{id}\<close> followed by anything.\<close>

definition braced :: "string \<Rightarrow> bool" where
  "braced s =
    (case s of
       b # d # t \<Rightarrow>
         b = CHR ''{'' \<and> is_id_start d \<and>
         (case dropWhile is_id_char (d # t) of [] \<Rightarrow> False | e # _ \<Rightarrow> e = CHR ''}'')
     | _ \<Rightarrow> False)"

text \<open>
  The helper \<open>convert\<close> of \<open>safe_substitute\<close> for a match of \<open>named\<close> or \<open>braced\<close>:
  \<open>str(mapping[named])\<close>, and on \<open>KeyError\<close> the matched text \<open>mo.group()\<close> itself.
\<close>

definition convert :: "(string \<Rightarrow> pyval option) \<Rightarrow> string \<Rightarrow> string \<Rightarrow> string" where
  "convert mapping named matched =
    (case mapping named of Some v \<Rightarrow> py_str v | None \<Rightarrow> matched)"

text \<open>
  \<open>pattern.sub(convert, template)\<close>: the text is scanned from the left; at a \<open>$\<close> the
  alternatives are tried in order (escaped, named, braced, invalid), the match is
  replaced (an escaped \<open>$$\<close> by \<open>$\<close>, an invalid lone \<open>$\<close> by itself), and the scan
  goes on behind the match.
\<close>

function safe_substitute :: "(string \<Rightarrow> pyval option) \<Rightarrow> string \<Rightarrow> string" where
  "safe_substitute mapping [] = []"
| "safe_substitute mapping (c # s) =
    (if c \<noteq> CHR ''$'' then c # safe_substitute mapping s
     else if s \<noteq> [] \<and> hd s = CHR ''$'' then
       CHR ''$'' # safe_substitute mapping (tl s)
     else if s \<noteq> [] \<and> is_id_start (hd s) then
       (let named = takeWhile is_id_char s
        in convert mapping named (CHR ''$'' # named)
           @ safe_substitute mapping (dropWhile is_id_char s))
     else if braced s then
       (let named = takeWhile is_id_char (tl s)
        in convert mapping named (''${'' @ named @ ''}'')
           @ safe_substitute mapping (tl (dropWhile is_id_char (tl s))))
     else CHR ''$'' # safe_substitute mapping s)"
  by pat_completeness auto
termination
proof -
  have a: "length (dropWhile is_id_char (tl s)) - Suc 0 \<le> length s" for s :: string
  proof -
    have "length (dropWhile is_id_char (tl s)) \<le> length (tl s)"
      by (rule length_dropWhile_le)
    then show ?thesis by simp
  qed
  show ?thesis
    by (relation "measure (\<lambda>(mapping, s). length s)")
       (auto simp: less_Suc_eq_le length_dropWhile_le a)
qed

declare safe_substitute.simps(2) [simp del]

text \<open>
  \<open>os.environ.get(key)\<close>, which is \<open>None\<close> for an absent variable, and
  \<open>os.environ.get(key, default)\<close>, first for a default that is a string (the result is
  a string), then for any default.
\<close>

definition environ_get :: "world \<Rightarrow> string \<Rightarrow> pyval" where
  "environ_get w key = (case environ w key of None \<Rightarrow> PyNone | Some v \<Rightarrow> PyStr v)"

definition environ_get_str :: "world \<Rightarrow> string \<Rightarrow> string \<Rightarrow> string" where
  "environ_get_str w key dflt = (case environ w key of None \<Rightarrow> dflt | Some v \<Rightarrow> v)"

definition environ_get_default :: "world \<Rightarrow> string \<Rightarrow> pyval \<Rightarrow> pyval" where
  "environ_get_default w key dflt =
     (case environ w key of None \<Rightarrow> dflt | Some v \<Rightarrow> PyStr v)"

definition uuid4_str :: "world \<Rightarrow> string \<times> world" where
  "uuid4_str w = (uuids w (uuid_draws w), w\<lparr>uuid_draws := Suc (uuid_draws w)\<rparr>)"

text \<open>
  The dictionary display passed to \<open>safe_substitute\<close>, its entries evaluated in
  order. The default of \<open>SHORT_GUID\<close> is an argument, so a UUID is drawn whether or not
  the variable is set; \<open>int\<close> of a \<open>HEALTH_VALIDITY_HOURS\<close> that is no integer literal
  raises \<open>ValueError\<close>.
\<close>

definition template_mapping :: "world \<Rightarrow> (error + (string \<times> pyval) list) \<times> world" where
  "template_mapping w =
    (let (t1, w1) = time_time w;
         check_time = PyInt (int_of_float t1);
         dry_run = environ_get w1 ''DRY_RUN'';
         orig_check_time = environ_get w1 ''CHECK_TIME_EPOCH_SEC'';
         r_level = environ_get w1 ''R_LEVEL'';
         image_tag = PyStr (environ_get_str w1 ''IMAGE_TAG'' ''latest'');
         (u, w2) = uuid4_str w1;
         short_guid = PyStr (environ_get_str w2 ''SHORT_GUID'' (take 4 u));
         iterations = environ_get_default w2 ''ITERATIONS'' (PyInt 5);
         (t2, w3) = time_time w2;
         hours = environ_get_str w3 ''HEALTH_VALIDITY_HOURS'' ''24''
     in case int_of_str hours of
          None \<Rightarrow> (Inl (ValueError hours), w3)
        | Some h \<Rightarrow>
            (Inr [(''CHECK_TIME_EPOCH_SEC'', check_time),
                  (''DRY_RUN'', dry_run),
                  (''ORIG_CHECK_TIME_EPOCH_SEC'', orig_check_time),
                  (''R_LEVEL'', r_level),
                  (''IMAGE_TAG'', image_tag),
                  (''SHORT_GUID'', short_guid),
                  (''ITERATIONS'', iterations),
                  (''EXPIRY_TIME_EPOCH_SEC'', PyInt (int_of_float t2 - h * 60 * 60))], w3))"

definition expand_template :: "string \<Rightarrow> world \<Rightarrow> (error + string) \<times> world" where
  "expand_template yaml_template w =
    (case files w yaml_template of
       None \<Rightarrow> (Inl (FileNotFoundError yaml_template), w)
     | Some t \<Rightarrow>
         (case template_mapping w of
            (Inl e, w1) \<Rightarrow> (Inl e, w1)
          | (Inr d, w1) \<Rightarrow> (Inr (safe_substitute (map_of d) t), w1)))"



section \<open>Placeholders and example worlds\<close>

text \<open>
  Two notions used to state where a placeholder stands in a template. A name is an
  identifier when the pattern \<open>id\<close> matches all of it. A \<open>$\<close> that follows the text
  \<open>pre\<close> starts a match of the pattern exactly when \<open>pre\<close> ends in an even number of
  \<open>$\<close>: with an odd number, the last of them and the new \<open>$\<close> form the escape \<open>$$\<close>.
\<close>

definition is_identifier :: "string \<Rightarrow> bool" where
  "is_identifier name = (name \<noteq> [] \<and> is_id_start (hd name) \<and> list_all is_id_char name)"

definition trailing_dollars :: "string \<Rightarrow> nat" where
  "trailing_dollars s = length (takeWhile (\<lambda>c. c = CHR ''$'') (rev s))"

text \<open>
  A world for concrete runs: no environment variable is set, there is no file but a
  template \<open>check.yaml\<close>, every command exits with status 1, and the clock advances by
  half a second at each reading.
\<close>

definition example_world :: world where
  "example_world =
    \<lparr>environ = Map.empty,
     files = [''check.yaml'' \<mapsto> ''tag: ${IMAGE_TAG} dry: ${DRY_RUN} id: ${FOO}''],
     shell = (\<lambda>n c. (1, Text ''out'', Text ''boom'')),
     executed = [],
     printed = [],
     clock = (\<lambda>n. 100000 + real n / 2),
     clock_reads = 0,
     uuids = (\<lambda>n. ''1b4e28ba-2fa1-11d2-883f-0016d3cca427''),
     uuid_draws = 0,
     temp_names = (\<lambda>n. ''/tmp/tmpk3x9q2''),
     temp_made = 0\<rparr>"

text \<open>
  The same world, but every command prints bytes on its standard output that do not
  decode, and still exits with status 1.
\<close>

definition garbled_world :: world where
  "garbled_world = example_world\<lparr>shell := (\<lambda>n c. (1, Undecodable, Text ''boom''))\<rparr>"

section \<open>Properties of the command builder\<close>

lemma set_values_concat:
  "set_values command items =
     command @ concat (map (\<lambda>(k, v). '' --set '' @ k @ ''='' @ v) items)"
  by (induction items arbitrary: command) auto

lemma uninstall_command:
  "generate_helm_command helm_path release_name chart values chart_version
     helm_install_flags UNINSTALL = helm_path @ '' uninstall '' @ release_name"
  by (simp add: generate_helm_command_def)

text \<open>
  Claim C1. In install mode the command is \<open><helmPath> install <releaseName> <chart>\<close>,
  followed in this order by \<open> --version <chartVersion>\<close> when a chart version is given,
  one \<open> --set k=v\<close> fragment per entry of the values mapping in insertion order when a
  mapping is given, and \<open> <extraFlags>\<close> when extra flags are given.
\<close>

theorem generate_helm_command_install:
  "generate_helm_command helm_path release_name (Some chart) values chart_version
     helm_install_flags INSTALL =
   helm_path @ '' install '' @ release_name @ '' '' @ chart
   @ (case chart_version of None \<Rightarrow> [] | Some v \<Rightarrow> '' --version '' @ v)
   @ (case values of None \<Rightarrow> []
      | Some d \<Rightarrow> concat (map (\<lambda>(k, v). '' --set '' @ k @ ''='' @ v) d))
   @ (case helm_install_flags of None \<Rightarrow> [] | Some fl \<Rightarrow> '' '' @ fl)"
  by (simp add: generate_helm_command_def format_field_def set_values_concat
      split: option.split)

text \<open>
  Claim C2 (as amended). In uninstall mode the command is exactly
  \<open><helmPath> uninstall <releaseName>\<close>, whatever chart, values, chart version and extra
  flags are passed: none of them is added to the command. The chart name is therefore
  part of the command exactly when it already occurs in
  \<open><helmPath> uninstall <releaseName>\<close>.
\<close>

theorem generate_helm_command_uninstall:
  "generate_helm_command helm_path release_name chart values chart_version
     helm_install_flags UNINSTALL = helm_path @ '' uninstall '' @ release_name
   \<and> sublist c (generate_helm_command helm_path release_name (Some c) values chart_version
        helm_install_flags UNINSTALL)
     = sublist c (helm_path @ '' uninstall '' @ release_name)"
  by (simp add: uninstall_command)

text \<open>
  The claim as first stated also says that the uninstall command never contains the
  chart name. A release named after its chart shows otherwise.
\<close>

theorem uninstall_contains_chart_name:
  "sublist ''nginx''
     (generate_helm_command ''helm'' ''my-nginx'' (Some ''nginx'') None None None UNINSTALL)"
proof -
  have "generate_helm_command ''helm'' ''my-nginx'' (Some ''nginx'') None None None UNINSTALL
        = ''helm uninstall my-'' @ ''nginx''"
    by (simp add: generate_helm_command_def)
  then show ?thesis by (simp only: sublist_append_leftI)
qed

text \<open>
  Claim C10. In install mode with the chart omitted the call does not fail: the text
  \<open>None\<close> stands where the chart name would, so with no other optional argument the
  command is \<open><helmPath> install <releaseName> None\<close>, and with optional arguments
  their fragments follow it.
\<close>

theorem generate_helm_command_install_no_chart:
  "generate_helm_command helm_path release_name None None None None INSTALL =
     helm_path @ '' install '' @ release_name @ '' None''
   \<and> generate_helm_command helm_path release_name None values chart_version
       helm_install_flags INSTALL =
     helm_path @ '' install '' @ release_name @ '' None''
     @ (case chart_version of None \<Rightarrow> [] | Some v \<Rightarrow> '' --version '' @ v)
     @ (case values of None \<Rightarrow> []
        | Some d \<Rightarrow> concat (map (\<lambda>(k, v). '' --set '' @ k @ ''='' @ v) d))
     @ (case helm_install_flags of None \<Rightarrow> [] | Some fl \<Rightarrow> '' '' @ fl)"
  by (simp add: generate_helm_command_def format_field_def set_values_concat
      split: option.split)

section \<open>Properties of the command runner\<close>

lemma subprocess_run_fields:
  "shell (snd (subprocess_run command check w)) = shell w"
  "executed (snd (subprocess_run command check w)) =
     (if CHR 0x00 \<in> set command then executed w else executed w @ [command])"
  by (simp_all add: subprocess_run_def Let_def split: prod.split captured.split)

lemma run_command_result:
  "fst (run_command command check w) =
    (if CHR 0x00 \<in> set command then Inl (ValueError ''embedded null byte'')
     else case shell w (length (executed w)) command of
            (rc, Text out, Text err) \<Rightarrow>
              if check \<and> rc \<noteq> 0 then Inl (CalledProcessError rc command out err)
              else Inr \<lparr>args = command, returncode = rc, stdout = out, stderr = err\<rparr>
          | (rc, _, _) \<Rightarrow> Inl UnicodeDecodeError)"
  by (auto simp: run_command_def subprocess_run_def print_def time_time_def Let_def
      split: prod.split captured.split)

lemma run_command_executed:
  "executed (snd (run_command command check w)) =
     (if CHR 0x00 \<in> set command then executed w else executed w @ [command])"
  by (auto simp: run_command_def subprocess_run_def print_def time_time_def Let_def
      split: prod.split captured.split)

lemma run_command_completes:
  assumes "CHR 0x00 \<notin> set command"
    and "shell w (length (executed w)) command = (rc, Text out, Text err)"
  shows "fst (run_command command check_default w) =
           Inr \<lparr>args = command, returncode = rc, stdout = out, stderr = err\<rparr>"
  using assms by (simp add: run_command_result check_default_def)

lemma run_command_Inr_no_null:
  "fst (run_command command check w) = Inr diag \<Longrightarrow> CHR 0x00 \<notin> set command"
  by (auto simp: run_command_result split: if_splits)



section \<open>Properties of the provisioning functions\<close>

lemma install_command_prefix:
  "\<exists>rest. generate_helm_command helm_path release_name chart values chart_version
            helm_install_flags INSTALL = helm_path @ '' install '' @ release_name @ rest"
  by (simp add: generate_helm_command_def set_values_concat Let_def split: option.split)

lemma uninstall_no_null:
  assumes "CHR 0x00 \<notin> set (generate_helm_command helm_path release_name chart values
                             chart_version helm_install_flags INSTALL)"
  shows "CHR 0x00 \<notin> set (helm_path @ '' uninstall '' @ release_name)"
proof -
  obtain rest where
    "generate_helm_command helm_path release_name chart values chart_version
       helm_install_flags INSTALL = helm_path @ '' install '' @ release_name @ rest"
    using install_command_prefix by blast
  with assms have "CHR 0x00 \<notin> set helm_path" "CHR 0x00 \<notin> set release_name"
    by auto
  then show ?thesis by simp
qed

text \<open>
  What \<open>install_helm_release\<close> and \<open>apply_yaml_file\<close> return, by the outcome of the
  forward command: its error if it raised, and otherwise the closure that runs the
  reverse command.
\<close>

lemma install_helm_release_fst:
  "fst (install_helm_release helm_path release_name chart values chart_version
          helm_install_flags w) =
   (case fst (run_command
               (generate_helm_command helm_path release_name (Some chart) values chart_version
                  helm_install_flags INSTALL) check_default w) of
      Inl e \<Rightarrow> Inl e
    | Inr diag \<Rightarrow>
        Inr (\<lambda>w'. run_command (helm_path @ '' uninstall '' @ release_name) check_default w'))"
  by (simp add: install_helm_release_def uninstall_command Let_def
      split: prod.split sum.split)

lemma install_helm_release_snd:
  "snd (install_helm_release helm_path release_name chart values chart_version
          helm_install_flags w) =
   snd (run_command
         (generate_helm_command helm_path release_name (Some chart) values chart_version
            helm_install_flags INSTALL) check_default w)"
  by (simp add: install_helm_release_def Let_def split: prod.split sum.split)

lemma apply_yaml_file_fst:
  "fst (apply_yaml_file yaml_path kubectl_path w) =
   (case fst (run_command (K_APPLY_FORMAT kubectl_path yaml_path) check_default w) of
      Inl e \<Rightarrow> Inl e
    | Inr diag \<Rightarrow>
        Inr (\<lambda>w'. run_command (K_DELETE_FORMAT kubectl_path yaml_path) check_default w'))"
  by (simp add: apply_yaml_file_def Let_def split: prod.split sum.split)

lemma apply_yaml_file_snd:
  "snd (apply_yaml_file yaml_path kubectl_path w) =
   snd (run_command (K_APPLY_FORMAT kubectl_path yaml_path) check_default w)"
  by (simp add: apply_yaml_file_def Let_def split: prod.split sum.split)

text \<open>
  Claim C4. Whenever \<open>install_helm_release\<close> returns a cleanup function, invoking it in
  any world runs exactly one command: the string that \<open>generate_helm_command\<close> gives for
  the same helm path and release name in uninstall mode, whatever the other arguments
  of that call are. It does return one when the install command is started (its command
  line holds no NUL character) and its output is captured as text.
\<close>

theorem install_helm_release_cleanup_command:
  "(CHR 0x00 \<notin> set (generate_helm_command helm_path release_name (Some chart) values
                       chart_version helm_install_flags INSTALL)
    \<and> shell w (length (executed w))
         (generate_helm_command helm_path release_name (Some chart) values chart_version
            helm_install_flags INSTALL) = (rc, Text out, Text err)
    \<longrightarrow> (\<exists>c. fst (install_helm_release helm_path release_name chart values chart_version
                   helm_install_flags w) = Inr c))
   \<and> (\<forall>c. fst (install_helm_release helm_path release_name chart values chart_version
                helm_install_flags w) = Inr c
         \<longrightarrow> (\<forall>w'. executed (snd (c w')) =
                  executed w' @ [generate_helm_command helm_path release_name chart' values'
                                   chart_version' helm_install_flags' UNINSTALL]))"
proof (intro conjI impI allI)
  let ?cmd = "generate_helm_command helm_path release_name (Some chart) values chart_version
                helm_install_flags INSTALL"
  assume "CHR 0x00 \<notin> set ?cmd \<and> shell w (length (executed w)) ?cmd = (rc, Text out, Text err)"
  then show "\<exists>c. fst (install_helm_release helm_path release_name chart values chart_version
                       helm_install_flags w) = Inr c"
    by (simp add: install_helm_release_fst run_command_completes)
next
  fix c w'
  let ?cmd = "generate_helm_command helm_path release_name (Some chart) values chart_version
                helm_install_flags INSTALL"
  assume r: "fst (install_helm_release helm_path release_name chart values chart_version
                    helm_install_flags w) = Inr c"
  then obtain diag where d: "fst (run_command ?cmd check_default w) = Inr diag"
    and c: "c = (\<lambda>w'. run_command (helm_path @ '' uninstall '' @ release_name) check_default w')"
    by (auto simp: install_helm_release_fst split: sum.splits)
  have "CHR 0x00 \<notin> set (helm_path @ '' uninstall '' @ release_name)"
    using run_command_Inr_no_null [OF d] by (rule uninstall_no_null)
  then show "executed (snd (c w')) =
             executed w' @ [generate_helm_command helm_path release_name chart' values'
                              chart_version' helm_install_flags' UNINSTALL]"
    unfolding c uninstall_command by (simp only: run_command_executed if_False)
qed

text \<open>
  In the example world the install command exits with status 1; the call returns a
  cleanup function, and invoking it runs \<open>helm uninstall r\<close>.
\<close>

theorem install_helm_release_cleanup_command_witness:
  "\<exists>c. fst (install_helm_release ''helm'' ''r'' ''c'' None None None example_world) = Inr c
       \<and> executed (snd (c example_world)) = [''helm uninstall r'']"
proof -
  have g: "generate_helm_command ''helm'' ''r'' (Some ''c'') None None None INSTALL
           = ''helm install r c''"
    by (simp add: generate_helm_command_def format_field_def)
  have u: "generate_helm_command ''helm'' ''r'' None None None None UNINSTALL
           = ''helm uninstall r''"
    by (simp add: generate_helm_command_def)
  have e: "executed example_world = []"
    "shell example_world 0 ''helm install r c'' = (1, Text ''out'', Text ''boom'')"
    by (simp_all add: example_world_def)
  note t = install_helm_release_cleanup_command
    [of "''helm''" "''r''" "''c''" None None None example_world 1 "''out''" "''boom''"
        None None None None]
  from t [THEN conjunct1] obtain c where
    c: "fst (install_helm_release ''helm'' ''r'' ''c'' None None None example_world) = Inr c"
    by (auto simp: g e)
  from t [THEN conjunct2] c have "executed (snd (c example_world)) = [''helm uninstall r'']"
    by (simp add: u e)
  with c show ?thesis by blast
qed

text \<open>
  Claim C8 (as amended). The forward command of \<open>install_helm_release\<close> and of
  \<open>apply_yaml_file\<close> is run with \<open>check\<close> unset. When it is started (its command line
  holds no NUL character) and its output is captured as text, then whatever its exit
  status the function raises nothing, leaves the world the unchecked command left, and
  returns the cleanup function: the closure that runs the uninstall command of the
  release, respectively \<open>kubectl delete -f\<close> on the file that was applied.
\<close>

theorem forward_failure_not_surfaced:
  "(CHR 0x00 \<notin> set (generate_helm_command helm_path release_name (Some chart) values
                       chart_version helm_install_flags INSTALL)
    \<and> shell w (length (executed w))
         (generate_helm_command helm_path release_name (Some chart) values chart_version
            helm_install_flags INSTALL) = (rc, Text out, Text err)
    \<longrightarrow> install_helm_release helm_path release_name chart values chart_version
          helm_install_flags w =
        (Inr (\<lambda>w'. run_command
                      (generate_helm_command helm_path release_name None None None
                         helm_install_flags UNINSTALL) check_default w'),
         snd (run_command
               (generate_helm_command helm_path release_name (Some chart) values
                  chart_version helm_install_flags INSTALL) False w))
      \<and> executed (snd (install_helm_release helm_path release_name chart values
                         chart_version helm_install_flags w)) =
          executed w @ [generate_helm_command helm_path release_name (Some chart) values
                          chart_version helm_install_flags INSTALL])
   \<and> (CHR 0x00 \<notin> set (K_APPLY_FORMAT kubectl_path yaml_path)
      \<and> shell w (length (executed w)) (K_APPLY_FORMAT kubectl_path yaml_path) =
          (rc', Text out', Text err')
      \<longrightarrow> apply_yaml_file yaml_path kubectl_path w =
          (Inr (\<lambda>w'. run_command (K_DELETE_FORMAT kubectl_path yaml_path) check_default w'),
           snd (run_command (K_APPLY_FORMAT kubectl_path yaml_path) False w))
        \<and> executed (snd (apply_yaml_file yaml_path kubectl_path w)) =
            executed w @ [K_APPLY_FORMAT kubectl_path yaml_path])"
proof (intro conjI impI; elim conjE)
  let ?cmd = "generate_helm_command helm_path release_name (Some chart) values chart_version
                helm_install_flags INSTALL"
  assume z: "CHR 0x00 \<notin> set ?cmd"
    and a: "shell w (length (executed w)) ?cmd = (rc, Text out, Text err)"
  have "fst (install_helm_release helm_path release_name chart values chart_version
               helm_install_flags w) =
        Inr (\<lambda>w'. run_command
                     (generate_helm_command helm_path release_name None None None
                        helm_install_flags UNINSTALL) check_default w')"
    by (simp add: install_helm_release_fst run_command_completes [OF z a] uninstall_command)
  then show "install_helm_release helm_path release_name chart values chart_version
               helm_install_flags w =
        (Inr (\<lambda>w'. run_command
                      (generate_helm_command helm_path release_name None None None
                         helm_install_flags UNINSTALL) check_default w'),
         snd (run_command ?cmd False w))"
    by (simp add: prod_eq_iff install_helm_release_snd check_default_def)
  show "executed (snd (install_helm_release helm_path release_name chart values
                         chart_version helm_install_flags w)) = executed w @ [?cmd]"
    using z by (simp add: install_helm_release_snd run_command_executed)
next
  let ?cmd = "K_APPLY_FORMAT kubectl_path yaml_path"
  assume z: "CHR 0x00 \<notin> set ?cmd"
    and a: "shell w (length (executed w)) ?cmd = (rc', Text out', Text err')"
  have "fst (apply_yaml_file yaml_path kubectl_path w) =
        Inr (\<lambda>w'. run_command (K_DELETE_FORMAT kubectl_path yaml_path) check_default w')"
    by (simp add: apply_yaml_file_fst run_command_completes [OF z a])
  then show "apply_yaml_file yaml_path kubectl_path w =
          (Inr (\<lambda>w'. run_command (K_DELETE_FORMAT kubectl_path yaml_path) check_default w'),
           snd (run_command ?cmd False w))"
    by (simp add: prod_eq_iff apply_yaml_file_snd check_default_def)
  show "executed (snd (apply_yaml_file yaml_path kubectl_path w)) = executed w @ [?cmd]"
    using z by (simp add: apply_yaml_file_snd run_command_executed)
qed

text \<open>
  In the example world every command exits with status 1, and both calls return the
  closure of the reverse command.
\<close>

theorem forward_failure_not_surfaced_witness:
  "shell example_world 0 ''helm install r c'' = (1, Text ''out'', Text ''boom'')
   \<and> shell example_world 0 ''kubectl apply -f m.yaml'' = (1, Text ''out'', Text ''boom'')
   \<and> fst (install_helm_release ''helm'' ''r'' ''c'' None None None example_world) =
       Inr (\<lambda>w'. run_command ''helm uninstall r'' check_default w')
   \<and> executed (snd (install_helm_release ''helm'' ''r'' ''c'' None None None example_world))
       = [''helm install r c'']
   \<and> fst (apply_yaml_file ''m.yaml'' ''kubectl'' example_world) =
       Inr (\<lambda>w'. run_command ''kubectl delete -f m.yaml'' check_default w')
   \<and> executed (snd (apply_yaml_file ''m.yaml'' ''kubectl'' example_world))
       = [''kubectl apply -f m.yaml'']"
proof -
  have g: "generate_helm_command ''helm'' ''r'' (Some ''c'') None None None INSTALL
           = ''helm install r c''"
    by (simp add: generate_helm_command_def format_field_def)
  have u: "generate_helm_command ''helm'' ''r'' None None None None UNINSTALL
           = ''helm uninstall r''"
    by (simp add: generate_helm_command_def)
  have k: "K_APPLY_FORMAT ''kubectl'' ''m.yaml'' = ''kubectl apply -f m.yaml''"
    "K_DELETE_FORMAT ''kubectl'' ''m.yaml'' = ''kubectl delete -f m.yaml''"
    by (simp_all add: K_APPLY_FORMAT_def K_DELETE_FORMAT_def)
  have e: "executed example_world = []"
    "\<And>n s. shell example_world n s = (1, Text ''out'', Text ''boom'')"
    by (simp_all add: example_world_def)
  note t = forward_failure_not_surfaced
    [of "''helm''" "''r''" "''c''" None None None example_world 1 "''out''" "''boom''"
        "''kubectl''" "''m.yaml''" 1 "''out''" "''boom''"]
  have pi: "CHR 0x00 \<notin> set (generate_helm_command ''helm'' ''r'' (Some ''c'') None None None
                                 INSTALL)
            \<and> shell example_world (length (executed example_world))
                 (generate_helm_command ''helm'' ''r'' (Some ''c'') None None None INSTALL) =
                (1, Text ''out'', Text ''boom'')"
    by (simp add: g e)
  have pa: "CHR 0x00 \<notin> set (K_APPLY_FORMAT ''kubectl'' ''m.yaml'')
            \<and> shell example_world (length (executed example_world))
                 (K_APPLY_FORMAT ''kubectl'' ''m.yaml'') = (1, Text ''out'', Text ''boom'')"
    by (simp add: k e)
  note ti = t [THEN conjunct1, THEN mp, OF pi]
  note ta = t [THEN conjunct2, THEN mp, OF pa]
  have i1: "fst (install_helm_release ''helm'' ''r'' ''c'' None None None example_world) =
       Inr (\<lambda>w'. run_command ''helm uninstall r'' check_default w')"
    using ti [THEN conjunct1] by (simp add: u)
  have i2: "executed (snd (install_helm_release ''helm'' ''r'' ''c'' None None None
                            example_world)) = [''helm install r c'']"
    using ti [THEN conjunct2] by (simp add: g e)
  have a1: "fst (apply_yaml_file ''m.yaml'' ''kubectl'' example_world) =
       Inr (\<lambda>w'. run_command ''kubectl delete -f m.yaml'' check_default w')"
    using ta [THEN conjunct1] by (simp add: k)
  have a2: "executed (snd (apply_yaml_file ''m.yaml'' ''kubectl'' example_world)) =
       [''kubectl apply -f m.yaml'']"
    using ta [THEN conjunct2] by (simp add: k e)
  show ?thesis
    by (intro conjI e(2) i1 i2 a1 a2)
qed

text \<open>
  The claim as first stated says that the function returns normally and returns the
  cleanup function for every input. In the world where the forward command exits with
  status 1 after printing bytes that do not decode, \<open>subprocess.run\<close> raises
  \<open>UnicodeDecodeError\<close>, and neither function returns a cleanup function.
\<close>

theorem forward_command_undecodable:
  "shell garbled_world 0 ''helm install r c'' = (1, Undecodable, Text ''boom'')
   \<and> fst (install_helm_release ''helm'' ''r'' ''c'' None None None garbled_world) =
       Inl UnicodeDecodeError
   \<and> shell garbled_world 0 ''kubectl apply -f m.yaml'' = (1, Undecodable, Text ''boom'')
   \<and> fst (apply_yaml_file ''m.yaml'' ''kubectl'' garbled_world) = Inl UnicodeDecodeError"
proof -
  have g: "generate_helm_command ''helm'' ''r'' (Some ''c'') None None None INSTALL
           = ''helm install r c''"
    by (simp add: generate_helm_command_def format_field_def)
  have e: "executed garbled_world = []"
    "\<And>n s. shell garbled_world n s = (1, Undecodable, Text ''boom'')"
    by (simp_all add: garbled_world_def example_world_def)
  show ?thesis
    by (simp add: install_helm_release_fst apply_yaml_file_fst run_command_result g e
        K_APPLY_FORMAT_def)
qed

section \<open>Properties of the template substitution\<close>

lemma not_id_dollar: "\<not> is_id_char (CHR ''$'')" "\<not> is_id_start (CHR ''$'')"
  by (simp_all add: is_id_char_def is_id_start_def)

lemma not_id_brace: "\<not> is_id_char (CHR ''}'')" "\<not> is_id_start (CHR ''{'')" "\<not> is_id_char (CHR ''{'')"
  by (simp_all add: is_id_char_def is_id_start_def)

lemma id_start_char: "is_id_start c \<Longrightarrow> is_id_char c"
  by (simp add: is_id_char_def)

lemma takeWhile_stop: "\<not> P x \<Longrightarrow> takeWhile P (s @ x # r) = takeWhile P s"
  by (induction s) auto

lemma dropWhile_stop: "\<not> P x \<Longrightarrow> dropWhile P (s @ x # r) = dropWhile P s @ x # r"
  by (induction s) auto

lemma trailing_dollars_append:
  "trailing_dollars (a @ b) =
     (if \<forall>x\<in>set b. x = CHR ''$'' then length b + trailing_dollars a else trailing_dollars b)"
  by (auto simp: trailing_dollars_def takeWhile_append1 takeWhile_append2 takeWhile_append)

lemma trailing_dollars_all: "\<forall>x\<in>set b. x = CHR ''$'' \<Longrightarrow> trailing_dollars b = length b"
  using trailing_dollars_append [of "[]" b] by (simp add: trailing_dollars_def)

lemma trailing_dollars_skip:
  "trailing_dollars a = 0 \<Longrightarrow> trailing_dollars (a @ b) = trailing_dollars b"
  by (simp add: trailing_dollars_append trailing_dollars_all)

lemma trailing_dollars_last:
  "a \<noteq> [] \<Longrightarrow> last a \<noteq> CHR ''$'' \<Longrightarrow> trailing_dollars a = 0"
  by (cases a rule: rev_cases) (auto simp: trailing_dollars_def)

lemma case_close_append:
  "(case X @ CHR ''$'' # r of [] \<Rightarrow> False | e # _ \<Rightarrow> e = CHR ''}'') =
   (case X of [] \<Rightarrow> False | e # _ \<Rightarrow> e = CHR ''}'')"
  by (cases X) simp_all

lemma braced_append:
  assumes "s \<noteq> []"
  shows "braced (s @ CHR ''$'' # r) = braced s"
proof (cases s)
  case Nil
  with assms show ?thesis by simp
next
  case (Cons b s')
  show ?thesis
  proof (cases s')
    case Nil
    with Cons show ?thesis by (simp add: braced_def not_id_dollar)
  next
    case (Cons d t)
    have D: "dropWhile is_id_char (d # t @ CHR ''$'' # r) =
             dropWhile is_id_char (d # t) @ CHR ''$'' # r"
      using dropWhile_stop [of is_id_char "CHR ''$''" "d # t" r] not_id_dollar(1) by simp
    show ?thesis
      unfolding \<open>s = b # s'\<close> Cons braced_def
      by (simp add: D case_close_append del: dropWhile.simps)
  qed
qed

lemma braced_shape:
  assumes "braced s"
  shows "s = CHR ''{'' # takeWhile is_id_char (tl s) @ CHR ''}'' # tl (dropWhile is_id_char (tl s))"
    and "dropWhile is_id_char (tl s) \<noteq> []"
proof -
  from assms obtain d t where s: "s = CHR ''{'' # d # t"
    by (auto simp: braced_def split: list.splits)
  from assms s obtain rest where D: "dropWhile is_id_char (d # t) = CHR ''}'' # rest"
    by (auto simp: braced_def split: list.splits simp del: dropWhile.simps)
  have "d # t = takeWhile is_id_char (d # t) @ dropWhile is_id_char (d # t)"
    by (simp only: takeWhile_dropWhile_id)
  with D s show
    "s = CHR ''{'' # takeWhile is_id_char (tl s) @ CHR ''}'' # tl (dropWhile is_id_char (tl s))"
    by (simp del: dropWhile.simps takeWhile.simps)
  from D s show "dropWhile is_id_char (tl s) \<noteq> []"
    by (simp del: dropWhile.simps)
qed

lemma safe_substitute_append:
  "even (trailing_dollars pre) \<Longrightarrow>
   safe_substitute m (pre @ CHR ''$'' # r) =
   safe_substitute m pre @ safe_substitute m (CHR ''$'' # r)"
proof (induction m pre rule: safe_substitute.induct)
  case (1 mapping)
  show ?case by simp
next
  case (2 mapping c s)
  show ?case
  proof (cases "c = CHR ''$''")
    case False
    have "trailing_dollars ([c] @ s) = trailing_dollars s"
      using False by (intro trailing_dollars_skip) (simp add: trailing_dollars_def)
    with 2 False show ?thesis
      by (simp add: safe_substitute.simps(2))
  next
    case True
    have ne: "s \<noteq> []"
      using "2.prems" True by (auto simp: trailing_dollars_def)
    have hd_app: "hd (s @ CHR ''$'' # r) = hd s" and tl_app: "tl (s @ CHR ''$'' # r) = tl s @ CHR ''$'' # r"
      using ne by simp_all
    show ?thesis
    proof (cases "hd s = CHR ''$''")
      case esc: True
      then obtain t where s: "s = CHR ''$'' # t" using ne by (cases s) auto
      have "trailing_dollars (''$$'' @ t) =
            (if \<forall>x\<in>set t. x = CHR ''$'' then length t + 2 else trailing_dollars t)"
        unfolding trailing_dollars_append by (simp add: trailing_dollars_def)
      then have "even (trailing_dollars t)"
        using "2.prems" True s by (auto simp: trailing_dollars_all split: if_splits)
      with "2.IH"(2) True s show ?thesis
        by (simp add: safe_substitute.simps(2))
    next
      case nesc: False
      show ?thesis
      proof (cases "is_id_start (hd s)")
        case named: True
        let ?n = "takeWhile is_id_char s" and ?s' = "dropWhile is_id_char s"
        have "?n \<noteq> []"
          using ne named by (cases s) (auto simp: id_start_char)
        moreover have "last (CHR ''$'' # ?n) \<noteq> CHR ''$''"
          using \<open>?n \<noteq> []\<close> last_in_set [of ?n] set_takeWhileD [of "last ?n" is_id_char s]
            not_id_dollar(1) by auto
        ultimately have "trailing_dollars (CHR ''$'' # ?n) = 0"
          by (intro trailing_dollars_last) simp_all
        then have "trailing_dollars ((CHR ''$'' # ?n) @ ?s') = trailing_dollars ?s'"
          by (rule trailing_dollars_skip)
        then have ev: "even (trailing_dollars ?s')"
          using "2.prems" True by simp
        have IH: "safe_substitute mapping (?s' @ CHR ''$'' # r) =
                  safe_substitute mapping ?s' @ safe_substitute mapping (CHR ''$'' # r)"
          using "2.IH"(3) [OF _ _ _ refl ev] True nesc named ne by simp
        have L: "safe_substitute mapping (CHR ''$'' # s @ CHR ''$'' # r) =
                 convert mapping ?n (CHR ''$'' # ?n) @ safe_substitute mapping (?s' @ CHR ''$'' # r)"
          by (subst safe_substitute.simps(2))
             (simp add: hd_app nesc named takeWhile_stop dropWhile_stop not_id_dollar Let_def)
        have R: "safe_substitute mapping (CHR ''$'' # s) =
                 convert mapping ?n (CHR ''$'' # ?n) @ safe_substitute mapping ?s'"
          by (subst safe_substitute.simps(2)) (simp add: nesc named ne Let_def)
        show ?thesis using True L R IH by simp
      next
        case nnamed: False
        show ?thesis
        proof (cases "braced s")
          case br: True
          let ?n = "takeWhile is_id_char (tl s)" and ?s' = "tl (dropWhile is_id_char (tl s))"
          note shape = braced_shape [OF br]
          have "trailing_dollars (''${'' @ ?n @ ''}'') = 0"
            by (intro trailing_dollars_last) simp_all
          then have "trailing_dollars ((''${'' @ ?n @ ''}'') @ ?s') = trailing_dollars ?s'"
            by (rule trailing_dollars_skip)
          moreover have "c # s = (''${'' @ ?n @ ''}'') @ ?s'"
            using shape(1) True by simp
          ultimately have ev: "even (trailing_dollars ?s')"
            using "2.prems" by simp
          have IH: "safe_substitute mapping (?s' @ CHR ''$'' # r) =
                    safe_substitute mapping ?s' @ safe_substitute mapping (CHR ''$'' # r)"
            using "2.IH"(4) [OF _ _ _ _ refl ev] True nesc nnamed br by simp
          have dw: "tl (dropWhile is_id_char (tl s @ CHR ''$'' # r)) = ?s' @ CHR ''$'' # r"
            using shape(2) by (simp add: dropWhile_stop not_id_dollar)
          have L: "safe_substitute mapping (CHR ''$'' # s @ CHR ''$'' # r) =
                   convert mapping ?n (''${'' @ ?n @ ''}'')
                   @ safe_substitute mapping (?s' @ CHR ''$'' # r)"
            by (subst safe_substitute.simps(2))
               (simp add: hd_app tl_app nesc nnamed br braced_append [OF ne] dw takeWhile_stop
                  not_id_dollar Let_def)
          have R: "safe_substitute mapping (CHR ''$'' # s) =
                   convert mapping ?n (''${'' @ ?n @ ''}'') @ safe_substitute mapping ?s'"
            by (subst safe_substitute.simps(2)) (simp add: nesc nnamed br Let_def)
          show ?thesis using True L R IH by simp
        next
          case nbr: False
          have "trailing_dollars [CHR ''$'', hd s] = 0"
            using nesc by (intro trailing_dollars_last) simp_all
          then have "trailing_dollars ([CHR ''$'', hd s] @ tl s) = trailing_dollars (tl s)"
            by (rule trailing_dollars_skip)
          moreover have "trailing_dollars ([hd s] @ tl s) = trailing_dollars (tl s)"
            using nesc by (intro trailing_dollars_skip trailing_dollars_last) simp_all
          ultimately have ev: "even (trailing_dollars s)"
            using "2.prems" True ne by simp
          have IH: "safe_substitute mapping (s @ CHR ''$'' # r) =
                    safe_substitute mapping s @ safe_substitute mapping (CHR ''$'' # r)"
            using "2.IH"(5) [OF _ _ _ _ ev] True nesc nnamed nbr by simp
          have L: "safe_substitute mapping (CHR ''$'' # s @ CHR ''$'' # r) =
                   CHR ''$'' # safe_substitute mapping (s @ CHR ''$'' # r)"
            by (subst safe_substitute.simps(2))
               (simp add: hd_app nesc nnamed nbr braced_append [OF ne])
          have R: "safe_substitute mapping (CHR ''$'' # s) = CHR ''$'' # safe_substitute mapping s"
            by (subst safe_substitute.simps(2)) (simp add: nesc nnamed nbr)
          show ?thesis using True L R IH by simp
        qed
      qed
    qed
  qed
qed


lemma safe_substitute_braced:
  assumes "is_identifier name"
  shows "safe_substitute m (''${'' @ name @ ''}'' @ post) =
         convert m name (''${'' @ name @ ''}'') @ safe_substitute m post"
proof -
  from assms have ne: "name \<noteq> []" and d: "is_id_start (hd name)"
    and all: "\<And>x. x \<in> set name \<Longrightarrow> is_id_char x"
    by (auto simp: is_identifier_def list_all_iff)
  have tw: "takeWhile is_id_char (name @ CHR ''}'' # post) = name"
    using takeWhile_append2 [of name is_id_char "CHR ''}'' # post"] all not_id_brace(1)
    by simp
  have dw: "dropWhile is_id_char (name @ CHR ''}'' # post) = CHR ''}'' # post"
    using dropWhile_append2 [of name is_id_char "CHR ''}'' # post"] all not_id_brace(1)
    by simp
  from ne obtain e t where n: "name = e # t" by (cases name) auto
  have br: "braced (CHR ''{'' # name @ CHR ''}'' # post)"
    using dw d unfolding n braced_def by (simp del: dropWhile.simps)
  have "safe_substitute m (CHR ''$'' # CHR ''{'' # name @ CHR ''}'' # post) =
        convert m name (''${'' @ name @ ''}'') @ safe_substitute m post"
    by (subst safe_substitute.simps(2)) (simp add: br tw dw not_id_brace Let_def)
  then show ?thesis by simp
qed

lemma safe_substitute_named:
  assumes "is_identifier name" and "post = [] \<or> \<not> is_id_char (hd post)"
  shows "safe_substitute m (CHR ''$'' # name @ post) =
         convert m name (CHR ''$'' # name) @ safe_substitute m post"
proof -
  from assms have ne: "name \<noteq> []" and d: "is_id_start (hd name)"
    and all: "\<And>x. x \<in> set name \<Longrightarrow> is_id_char x"
    by (auto simp: is_identifier_def list_all_iff)
  have tw: "takeWhile is_id_char (name @ post) = name"
    using takeWhile_append2 [of name is_id_char post] all assms(2)
    by (cases post) simp_all
  have dw: "dropWhile is_id_char (name @ post) = post"
    using dropWhile_append2 [of name is_id_char post] all assms(2)
    by (cases post) simp_all
  have nd: "hd name \<noteq> CHR ''$''"
    using d not_id_dollar(2) by auto
  show ?thesis
    by (subst safe_substitute.simps(2)) (simp add: ne nd d tw dw Let_def)
qed

lemma safe_substitute_plain:
  "CHR ''$'' \<notin> set s \<Longrightarrow> safe_substitute m s = s"
proof (induction s)
  case Nil
  show ?case by simp
next
  case (Cons c s)
  then have "c \<noteq> CHR ''$''" "safe_substitute m s = s" by auto
  then show ?case by (subst safe_substitute.simps(2)) simp
qed

section \<open>Properties of the template expansion\<close>

lemma template_mapping_fst:
  "fst (template_mapping w) =
    (let hours = environ_get_str w ''HEALTH_VALIDITY_HOURS'' ''24''
     in case int_of_str hours of
          None \<Rightarrow> Inl (ValueError hours)
        | Some h \<Rightarrow>
            Inr [(''CHECK_TIME_EPOCH_SEC'', PyInt (int_of_float (clock w (clock_reads w)))),
                 (''DRY_RUN'', environ_get w ''DRY_RUN''),
                 (''ORIG_CHECK_TIME_EPOCH_SEC'', environ_get w ''CHECK_TIME_EPOCH_SEC''),
                 (''R_LEVEL'', environ_get w ''R_LEVEL''),
                 (''IMAGE_TAG'', PyStr (environ_get_str w ''IMAGE_TAG'' ''latest'')),
                 (''SHORT_GUID'',
                  PyStr (environ_get_str w ''SHORT_GUID'' (take 4 (uuids w (uuid_draws w))))),
                 (''ITERATIONS'', environ_get_default w ''ITERATIONS'' (PyInt 5)),
                 (''EXPIRY_TIME_EPOCH_SEC'',
                  PyInt (int_of_float (clock w (Suc (clock_reads w))) - h * 60 * 60))])"
  by (simp add: template_mapping_def time_time_def uuid4_str_def environ_get_def
      environ_get_str_def environ_get_default_def Let_def split: option.split)


lemma template_mapping_keys:
  "fst (template_mapping w) = Inr d \<Longrightarrow>
   map fst d = [''CHECK_TIME_EPOCH_SEC'', ''DRY_RUN'', ''ORIG_CHECK_TIME_EPOCH_SEC'',
                ''R_LEVEL'', ''IMAGE_TAG'', ''SHORT_GUID'', ''ITERATIONS'',
                ''EXPIRY_TIME_EPOCH_SEC'']"
  by (auto simp: template_mapping_fst Let_def split: option.splits)

lemma int_of_str_24: "int_of_str ''24'' = Some 24"
  by (simp add: int_of_str_def strip_def is_space_def digits_def is_digit_def digit_val_def)

lemma template_mapping_ok:
  "environ w ''HEALTH_VALIDITY_HOURS'' = None \<Longrightarrow> \<exists>d. fst (template_mapping w) = Inr d"
  by (simp add: template_mapping_fst environ_get_str_def int_of_str_24)

lemma expand_template_fst:
  "files w yaml_template = Some t \<Longrightarrow>
   fst (expand_template yaml_template w) =
     (case fst (template_mapping w) of
        Inl e \<Rightarrow> Inl e
      | Inr d \<Rightarrow> Inr (safe_substitute (map_of d) t))"
  by (simp add: expand_template_def split: prod.split sum.split)


lemma expand_template_braced:
  assumes "files w yaml_template = Some (pre @ ''${'' @ name @ ''}'' @ post)"
    and "even (trailing_dollars pre)"
    and "is_identifier name"
  shows "fst (expand_template yaml_template w) =
     (case fst (template_mapping w) of
        Inl e \<Rightarrow> Inl e
      | Inr d \<Rightarrow> Inr (safe_substitute (map_of d) pre
                     @ convert (map_of d) name (''${'' @ name @ ''}'')
                     @ safe_substitute (map_of d) post))"
proof -
  have "safe_substitute m (pre @ ''${'' @ name @ ''}'' @ post) =
        safe_substitute m pre @ convert m name (''${'' @ name @ ''}'') @ safe_substitute m post"
    for m
    using safe_substitute_append [OF assms(2), of m "CHR ''{'' # name @ ''}'' @ post"]
      safe_substitute_braced [OF assms(3), of m post]
    by simp
  with assms(1) show ?thesis
    by (simp add: expand_template_fst split: sum.split)
qed

lemma expand_template_named:
  assumes "files w yaml_template = Some (pre @ CHR ''$'' # name @ post)"
    and "even (trailing_dollars pre)"
    and "is_identifier name"
    and "post = [] \<or> \<not> is_id_char (hd post)"
  shows "fst (expand_template yaml_template w) =
     (case fst (template_mapping w) of
        Inl e \<Rightarrow> Inl e
      | Inr d \<Rightarrow> Inr (safe_substitute (map_of d) pre
                     @ convert (map_of d) name (CHR ''$'' # name)
                     @ safe_substitute (map_of d) post))"
proof -
  have "safe_substitute m (pre @ CHR ''$'' # name @ post) =
        safe_substitute m pre @ convert m name (CHR ''$'' # name) @ safe_substitute m post"
    for m
    using safe_substitute_append [OF assms(2), of m "name @ post"]
      safe_substitute_named [OF assms(3,4), of m]
    by simp
  with assms(1) show ?thesis
    by (simp add: expand_template_fst split: sum.split)
qed

lemma id_DRY_RUN: "is_identifier ''DRY_RUN''"
  by (simp add: is_identifier_def is_id_start_def is_id_char_def)

lemma id_EXPIRY: "is_identifier ''EXPIRY_TIME_EPOCH_SEC''"
  by (simp add: is_identifier_def is_id_start_def is_id_char_def)

lemma example_mapping:
  "fst (template_mapping example_world) =
     Inr [(''CHECK_TIME_EPOCH_SEC'', PyInt 100000),
          (''DRY_RUN'', PyNone),
          (''ORIG_CHECK_TIME_EPOCH_SEC'', PyNone),
          (''R_LEVEL'', PyNone),
          (''IMAGE_TAG'', PyStr ''latest''),
          (''SHORT_GUID'', PyStr ''1b4e''),
          (''ITERATIONS'', PyInt 5),
          (''EXPIRY_TIME_EPOCH_SEC'', PyInt 13600)]"
  by (simp add: template_mapping_fst example_world_def environ_get_def environ_get_str_def
      environ_get_default_def int_of_str_24 int_of_float_def)

lemma eval_id_chars:
  "is_id_char c = (c \<in> set ''_abcdefghijklmnopqrstuvwxyzABCDEFGHIJKLMNOPQRSTUVWXYZ0123456789'')"
  by (auto simp: is_id_char_def is_id_start_def)

text \<open>
  Claim C5. Let the template hold, after a text \<open>pre\<close> that ends in an even number of
  \<open>$\<close>, a placeholder \<open>${name}\<close>, or \<open>$name\<close> followed by no identifier character,
  whose name is an identifier outside the eight names of the mapping. Then the
  placeholder stands unchanged at its place in the output, between the expansions of
  the text before it and of the text after it, and it causes no error: the expansion
  fails only if building the mapping fails, which does not depend on the template.
  The keys of the mapping are those eight names and no other.
\<close>

theorem expand_template_unrecognized:
  assumes "files w yaml_template = Some (pre @ ph @ post)"
    and "even (trailing_dollars pre)"
    and "is_identifier name"
    and "name \<notin> {''CHECK_TIME_EPOCH_SEC'', ''DRY_RUN'', ''ORIG_CHECK_TIME_EPOCH_SEC'',
                  ''R_LEVEL'', ''IMAGE_TAG'', ''SHORT_GUID'', ''ITERATIONS'',
                  ''EXPIRY_TIME_EPOCH_SEC''}"
    and "ph = ''${'' @ name @ ''}''
         \<or> ph = CHR ''$'' # name \<and> (post = [] \<or> \<not> is_id_char (hd post))"
  shows "fst (expand_template yaml_template w) =
     (case fst (template_mapping w) of
        Inl e \<Rightarrow> Inl e
      | Inr d \<Rightarrow> Inr (safe_substitute (map_of d) pre @ ph @ safe_substitute (map_of d) post))
   \<and> (case fst (template_mapping w) of
        Inl e \<Rightarrow> True
      | Inr d \<Rightarrow>
          map fst d = [''CHECK_TIME_EPOCH_SEC'', ''DRY_RUN'', ''ORIG_CHECK_TIME_EPOCH_SEC'',
                       ''R_LEVEL'', ''IMAGE_TAG'', ''SHORT_GUID'', ''ITERATIONS'',
                       ''EXPIRY_TIME_EPOCH_SEC''])"
proof -
  have keys: "case fst (template_mapping w) of
        Inl e \<Rightarrow> True
      | Inr d \<Rightarrow>
          map fst d = [''CHECK_TIME_EPOCH_SEC'', ''DRY_RUN'', ''ORIG_CHECK_TIME_EPOCH_SEC'',
                       ''R_LEVEL'', ''IMAGE_TAG'', ''SHORT_GUID'', ''ITERATIONS'',
                       ''EXPIRY_TIME_EPOCH_SEC'']"
    by (simp add: template_mapping_keys split: sum.split)
  have none: "convert (map_of d) name x = x" if "fst (template_mapping w) = Inr d" for d x
  proof -
    have "fst ` set d = set (map fst d)" by simp
    also note template_mapping_keys [OF that]
    finally have "name \<notin> fst ` set d" using assms(4) by simp
    then have "map_of d name = None" by (simp add: map_of_eq_None_iff)
    then show ?thesis by (simp add: convert_def)
  qed
  from assms(5) show ?thesis
  proof
    assume p: "ph = ''${'' @ name @ ''}''"
    have f: "files w yaml_template = Some (pre @ ''${'' @ name @ ''}'' @ post)"
      using assms(1) p by simp
    show ?thesis
      using expand_template_braced [OF f assms(2,3)] none keys
      by (simp add: p split: sum.split)
  next
    assume p: "ph = CHR ''$'' # name \<and> (post = [] \<or> \<not> is_id_char (hd post))"
    then have f: "files w yaml_template = Some (pre @ CHR ''$'' # name @ post)"
      using assms(1) by simp
    show ?thesis
      using expand_template_named [OF f assms(2,3)] p none keys
      by (simp split: sum.split)
  qed
qed

text \<open>
  The template of the example world ends in the unrecognized placeholder \<open>${FOO}\<close>.
\<close>

theorem expand_template_unrecognized_witness:
  "files example_world ''check.yaml'' =
     Some (''tag: ${IMAGE_TAG} dry: ${DRY_RUN} id: '' @ ''${FOO}'' @ [])
   \<and> even (trailing_dollars ''tag: ${IMAGE_TAG} dry: ${DRY_RUN} id: '')
   \<and> is_identifier ''FOO''
   \<and> fst (expand_template ''check.yaml'' example_world) =
       Inr ''tag: latest dry: None id: ${FOO}''"
proof -
  have h1: "files example_world ''check.yaml'' =
     Some (''tag: ${IMAGE_TAG} dry: ${DRY_RUN} id: '' @ ''${FOO}'' @ [])"
    by (simp add: example_world_def)
  have h2: "even (trailing_dollars ''tag: ${IMAGE_TAG} dry: ${DRY_RUN} id: '')"
    by (simp add: trailing_dollars_def)
  have h3: "is_identifier ''FOO''"
    by (simp add: is_identifier_def is_id_start_def is_id_char_def)
  have h4: "''FOO'' \<notin> {''CHECK_TIME_EPOCH_SEC'', ''DRY_RUN'', ''ORIG_CHECK_TIME_EPOCH_SEC'',
                  ''R_LEVEL'', ''IMAGE_TAG'', ''SHORT_GUID'', ''ITERATIONS'',
                  ''EXPIRY_TIME_EPOCH_SEC''}"
    by simp
  have h5: "''${FOO}'' = ''${'' @ ''FOO'' @ ''}''
         \<or> ''${FOO}'' = CHR ''$'' # ''FOO'' \<and> ([] = [] \<or> \<not> is_id_char (hd []))"
    by simp
  have s: "safe_substitute
             (map_of [(''CHECK_TIME_EPOCH_SEC'', PyInt 100000),
          (''DRY_RUN'', PyNone),
          (''ORIG_CHECK_TIME_EPOCH_SEC'', PyNone),
          (''R_LEVEL'', PyNone),
          (''IMAGE_TAG'', PyStr ''latest''),
          (''SHORT_GUID'', PyStr ''1b4e''),
          (''ITERATIONS'', PyInt 5),
          (''EXPIRY_TIME_EPOCH_SEC'', PyInt 13600)])
             ''tag: ${IMAGE_TAG} dry: ${DRY_RUN} id: '' = ''tag: latest dry: None id: ''"
    by (simp add: safe_substitute.simps(2) braced_def eval_id_chars is_id_start_def
        convert_def py_str_def)
  from expand_template_unrecognized [OF h1 h2 h3 h4 h5, THEN conjunct1]
  have "fst (expand_template ''check.yaml'' example_world) =
       Inr ''tag: latest dry: None id: ${FOO}''"
    by (simp add: example_mapping s del: map_of.simps)
  with h1 h2 h3 show ?thesis by blast
qed

text \<open>
  Claim C6 (as amended). A placeholder \<open>${DRY_RUN}\<close> is replaced by the value of the
  environment variable \<open>DRY_RUN\<close> when it is set, and by the text \<open>None\<close> when it is
  absent: \<open>os.environ.get\<close> returns \<open>None\<close> and \<open>safe_substitute\<close> inserts \<open>str(None)\<close>.
\<close>

theorem expand_template_dry_run:
  assumes "files w yaml_template = Some (pre @ ''${DRY_RUN}'' @ post)"
    and "even (trailing_dollars pre)"
  shows "fst (expand_template yaml_template w) =
     (case fst (template_mapping w) of
        Inl e \<Rightarrow> Inl e
      | Inr d \<Rightarrow> Inr (safe_substitute (map_of d) pre
                     @ (case environ w ''DRY_RUN'' of None \<Rightarrow> ''None'' | Some v \<Rightarrow> v)
                     @ safe_substitute (map_of d) post))"
proof -
  have f: "files w yaml_template = Some (pre @ ''${'' @ ''DRY_RUN'' @ ''}'' @ post)"
    using assms(1) by simp
  have c: "convert (map_of d) ''DRY_RUN'' x =
           (case environ w ''DRY_RUN'' of None \<Rightarrow> ''None'' | Some v \<Rightarrow> v)"
    if "fst (template_mapping w) = Inr d" for d x
    using that
    by (auto simp: template_mapping_fst Let_def convert_def environ_get_def py_str_def
        split: option.splits)
  show ?thesis
    using expand_template_braced [OF f assms(2) id_DRY_RUN] c
    by (simp split: sum.split)
qed

text \<open>With \<open>DRY_RUN=true\<close> the placeholder becomes \<open>true\<close>.\<close>

theorem expand_template_dry_run_witness:
  "fst (expand_template ''check.yaml''
         (example_world\<lparr>environ := [''DRY_RUN'' \<mapsto> ''true''],
                        files := [''check.yaml'' \<mapsto> ''dry: ${DRY_RUN}'']\<rparr>))
   = Inr ''dry: true''"
proof -
  let ?w = "example_world\<lparr>environ := [''DRY_RUN'' \<mapsto> ''true''],
                          files := [''check.yaml'' \<mapsto> ''dry: ${DRY_RUN}'']\<rparr>"
  have h1: "files ?w ''check.yaml'' = Some (''dry: '' @ ''${DRY_RUN}'' @ [])"
    by simp
  have h2: "even (trailing_dollars ''dry: '')"
    by (simp add: trailing_dollars_def)
  obtain d where d: "fst (template_mapping ?w) = Inr d"
    using template_mapping_ok [of ?w] by auto
  from expand_template_dry_run [OF h1 h2] show ?thesis
    by (simp add: d safe_substitute_plain)
qed

text \<open>
  The claim as first stated says that an absent \<open>DRY_RUN\<close> gives an empty value. In the
  example world the variable is absent, and the template \<open>${DRY_RUN}\<close> expands to the
  four characters \<open>None\<close>.
\<close>

theorem expand_template_dry_run_absent:
  "environ example_world ''DRY_RUN'' = None
   \<and> fst (expand_template ''check.yaml''
           (example_world\<lparr>files := [''check.yaml'' \<mapsto> ''${DRY_RUN}'']\<rparr>))
     = Inr ''None''"
proof -
  let ?w = "example_world\<lparr>files := [''check.yaml'' \<mapsto> ''${DRY_RUN}'']\<rparr>"
  have e: "environ ?w = Map.empty" "environ example_world = Map.empty"
    by (simp_all add: example_world_def)
  have f: "files ?w ''check.yaml'' = Some ''${DRY_RUN}''"
    by simp
  obtain d where d: "fst (template_mapping ?w) = Inr d"
    using template_mapping_ok [of ?w] e by auto
  then have "map_of d ''DRY_RUN'' = Some PyNone"
    by (auto simp: template_mapping_fst Let_def environ_get_def e split: option.splits)
  then have "safe_substitute (map_of d) ''${DRY_RUN}'' = ''None''"
    by (simp add: safe_substitute.simps(2) braced_def eval_id_chars is_id_start_def
        convert_def py_str_def)
  then show ?thesis
    by (simp add: expand_template_fst [OF f] d e)
qed

text \<open>
  Claim C7. Let \<open>h\<close> be the integer value of the environment variable
  \<open>HEALTH_VALIDITY_HOURS\<close>, or 24 when the variable is absent. A placeholder
  \<open>${EXPIRY_TIME_EPOCH_SEC}\<close> is replaced by the decimal text of the current time in
  whole seconds, read when that entry of the mapping is evaluated (the second reading
  of the clock in the call), minus \<open>h\<close> times 3600.
\<close>

theorem expand_template_expiry:
  assumes "files w yaml_template = Some (pre @ ''${EXPIRY_TIME_EPOCH_SEC}'' @ post)"
    and "even (trailing_dollars pre)"
    and "environ w ''HEALTH_VALIDITY_HOURS'' = None \<and> h = 24
         \<or> (\<exists>s. environ w ''HEALTH_VALIDITY_HOURS'' = Some s \<and> int_of_str s = Some h)"
  shows "\<exists>d. fst (template_mapping w) = Inr d
       \<and> fst (expand_template yaml_template w) =
           Inr (safe_substitute (map_of d) pre
                @ str_int (int_of_float (clock w (Suc (clock_reads w))) - h * 3600)
                @ safe_substitute (map_of d) post)"
proof -
  have f: "files w yaml_template =
           Some (pre @ ''${'' @ ''EXPIRY_TIME_EPOCH_SEC'' @ ''}'' @ post)"
    using assms(1) by simp
  have hours: "int_of_str (environ_get_str w ''HEALTH_VALIDITY_HOURS'' ''24'') = Some h"
    using assms(3) by (auto simp: environ_get_str_def int_of_str_24)
  then obtain d where d: "fst (template_mapping w) = Inr d"
    and e: "map_of d ''EXPIRY_TIME_EPOCH_SEC'' =
            Some (PyInt (int_of_float (clock w (Suc (clock_reads w))) - h * 60 * 60))"
    by (simp add: template_mapping_fst Let_def)
  have "h * 60 * 60 = h * 3600" by simp
  then have "convert (map_of d) ''EXPIRY_TIME_EPOCH_SEC'' x =
        str_int (int_of_float (clock w (Suc (clock_reads w))) - h * 3600)" for x
    using e by (simp only: convert_def py_str_def option.case pyval.case)
  then show ?thesis
    using expand_template_braced [OF f assms(2) id_EXPIRY] d by simp
qed

text \<open>
  In the example world the second reading of the clock is 100000.5: the default of 24
  hours gives 13600, and \<open>HEALTH_VALIDITY_HOURS=2\<close> gives 92800.
\<close>

theorem expand_template_expiry_witness:
  "fst (expand_template ''check.yaml''
         (example_world\<lparr>files := [''check.yaml'' \<mapsto> ''exp: ${EXPIRY_TIME_EPOCH_SEC}'']\<rparr>))
   = Inr ''exp: 13600''
   \<and> fst (expand_template ''check.yaml''
         (example_world\<lparr>environ := [''HEALTH_VALIDITY_HOURS'' \<mapsto> ''2''],
                        files := [''check.yaml'' \<mapsto> ''exp: ${EXPIRY_TIME_EPOCH_SEC}'']\<rparr>))
   = Inr ''exp: 92800''"
proof -
  let ?w = "example_world\<lparr>files := [''check.yaml'' \<mapsto> ''exp: ${EXPIRY_TIME_EPOCH_SEC}'']\<rparr>"
  let ?v = "example_world\<lparr>environ := [''HEALTH_VALIDITY_HOURS'' \<mapsto> ''2''],
                          files := [''check.yaml'' \<mapsto> ''exp: ${EXPIRY_TIME_EPOCH_SEC}'']\<rparr>"
  have h2: "even (trailing_dollars ''exp: '')"
    by (simp add: trailing_dollars_def)
  have w1: "files ?w ''check.yaml'' = Some (''exp: '' @ ''${EXPIRY_TIME_EPOCH_SEC}'' @ [])"
    by simp
  have w3: "environ ?w ''HEALTH_VALIDITY_HOURS'' = None \<and> (24::int) = 24
            \<or> (\<exists>s. environ ?w ''HEALTH_VALIDITY_HOURS'' = Some s \<and> int_of_str s = Some 24)"
    by (simp add: example_world_def)
  have v1: "files ?v ''check.yaml'' = Some (''exp: '' @ ''${EXPIRY_TIME_EPOCH_SEC}'' @ [])"
    by simp
  have "int_of_str ''2'' = Some 2"
    by (simp add: int_of_str_def strip_def is_space_def digits_def is_digit_def digit_val_def)
  then have v3: "environ ?v ''HEALTH_VALIDITY_HOURS'' = None \<and> (2::int) = 24
            \<or> (\<exists>s. environ ?v ''HEALTH_VALIDITY_HOURS'' = Some s \<and> int_of_str s = Some 2)"
    by simp
  have t: "int_of_float (clock example_world (Suc (clock_reads example_world))) = 100000"
    by (simp add: example_world_def int_of_float_def)
  have n: "str_int 13600 = ''13600''" "str_int 92800 = ''92800''"
    by (simp_all add: str_int_def str_nat.simps digit_char_def)
  from expand_template_expiry [OF w1 h2 w3] expand_template_expiry [OF v1 h2 v3]
  show ?thesis
    by (auto simp: t n safe_substitute_plain)
qed

section \<open>One cleanup function per forward action\<close>










end
